theory Spec2Isabelle
  imports Main "HOL-Library.Word" "HOL-Library.Sublist" "HOL-Library.AList"
    "HOL-Library.Char_ord" "HOL-Library.List_Lexorder"
begin

section \<open>Data model of package errors\<close>

text \<open>
  \<^verbatim>\<open>type Kind uint8\<close> with the constants numbered by \<^verbatim>\<open>iota\<close>. Every value of the
  byte is a Kind; only thirteen of them have a name.
\<close>

type_synonym Kind = "8 word"

definition Unknown :: Kind where "Unknown = 0"
definition Invalid :: Kind where "Invalid = 1"
definition Permission :: Kind where "Permission = 2"
definition IO :: Kind where "IO = 3"
definition Duplicated :: Kind where "Duplicated = 4"
definition NotExist :: Kind where "NotExist = 5"
definition Private :: Kind where "Private = 6"
definition Internal :: Kind where "Internal = 7"
definition Decrypt :: Kind where "Decrypt = 8"
definition Unmarshal :: Kind where "Unmarshal = 9"
definition Transient :: Kind where "Transient = 10"
definition Unsupported :: Kind where "Unsupported = 11"
definition NotAcceptable :: Kind where "NotAcceptable = 12"

text \<open>\<^verbatim>\<open>func (k Kind) String() string\<close>: the switch, with its fall-through result.\<close>

definition Kind_String :: "Kind \<Rightarrow> string" where
  "Kind_String k =
     (if k = Unknown then ''Unknown error''
      else if k = Invalid then ''invalid operation''
      else if k = Permission then ''permission denied''
      else if k = IO then ''I/O error''
      else if k = Duplicated then ''item already exists''
      else if k = NotExist then ''item does not exist''
      else if k = Private then ''information withheld''
      else if k = Internal then ''internal error''
      else if k = Decrypt then ''invalid encryption''
      else if k = Unmarshal then ''invalid data''
      else if k = Transient then ''transient error''
      else if k = Unsupported then ''unsupported''
      else if k = NotAcceptable then ''not accepted''
      else ''unknown error kind'')"

text \<open>
  \<^verbatim>\<open>type MetaData map[string]interface{}\<close>. A Go map is a reference: a MetaData value is
  either the nil map or the address of a map object in the store. The store is the list of
  the map objects allocated so far, an address is an index into it, and a map object is an
  association list read with \<open>map_of\<close>. The values kept under the keys are the dynamic
  values a caller can put there; the ones modelled are nil, booleans, integers and strings.
\<close>

datatype mvalue = MNil | MBool bool | MInt int | MString string

type_synonym mapobj = "(string \<times> mvalue) list"
type_synonym store = "mapobj list"
type_synonym MetaData = "nat option"

definition deref :: "store \<Rightarrow> MetaData \<Rightarrow> mapobj" where
  "deref h m = (case m of None \<Rightarrow> [] | Some a \<Rightarrow> if a < length h then h ! a else [])"

text \<open>
  A value of the interface \<^verbatim>\<open>error\<close> is the nil interface, a pointer to an
  \<^verbatim>\<open>errorString\<close> (a leaf, with its text), or a pointer to an \<^verbatim>\<open>Error\<close>, which
  may be the nil pointer. The struct \<^verbatim>\<open>Error\<close> has the fields Kind, cause, s and Meta.
  No function of the package writes to a record once \<^verbatim>\<open>E\<close> has returned it, so a
  pointer to a record is modelled by the record it points to.
\<close>

datatype error_val = NilInterface | errorString string | NilErrorPtr | ErrorPtr Error
and Error = MkError (Kind: Kind) (cause: error_val) (s: string) (Meta: MetaData)

text \<open>The one way the functions below can fault: a nil pointer or nil interface is used.\<close>

datatype panic = NilDereference

section \<open>Rendering\<close>

text \<open>
  \<^verbatim>\<open>func (e *Error) Error() string\<close> for a non-nil receiver, and the dynamic dispatch
  of \<^verbatim>\<open>e.cause.Error()\<close> on an interface value. Calling the method on the nil interface
  faults, and so does reading \<^verbatim>\<open>e.s\<close> through a nil receiver.
\<close>

fun Error_Error :: "Error \<Rightarrow> panic + string"
  and err_Error :: "error_val \<Rightarrow> panic + string" where
  "Error_Error (MkError k c str m) =
     (case err_Error c of
        Inl p \<Rightarrow> Inl p
      | Inr t \<Rightarrow> Inr ((if str \<noteq> [] then str @ '': '' else str) @ t))"
| "err_Error NilInterface = Inl NilDereference"
| "err_Error (errorString t) = Inr t"
| "err_Error NilErrorPtr = Inl NilDereference"
| "err_Error (ErrorPtr e) = Error_Error e"

text \<open>
  \<^verbatim>\<open>strings.Index(s, sep)\<close>: the index of the first occurrence of \<open>sep\<close> in \<open>s\<close>,
  or -1.
\<close>

fun strings_Index :: "string \<Rightarrow> string \<Rightarrow> int" where
  "strings_Index [] sep = (if sep = [] then 0 else - 1)"
| "strings_Index (c # cs) sep =
     (if prefix sep (c # cs) then 0
      else (let i = strings_Index cs sep in if i < 0 then - 1 else i + 1))"

text \<open>
  \<^verbatim>\<open>func (e *Error) Msg() string\<close>: the position searched for is that of the one-character
  string \<^verbatim>\<open>":"\<close>; the slice \<^verbatim>\<open>str[:pos]\<close> is within bounds, since \<open>pos\<close> is an index
  of \<open>str\<close> or its length.
\<close>

definition Error_Msg :: "Error \<Rightarrow> panic + string" where
  "Error_Msg e =
     (case Error_Error e of
        Inl p \<Rightarrow> Inl p
      | Inr str \<Rightarrow>
          (let pos = strings_Index str '':'';
               pos = (if pos = - 1 then int (length str) else pos)
           in Inr (take (nat pos) str)))"

section \<open>The builder\<close>

text \<open>
  The arguments of \<^verbatim>\<open>E(args ...interface{})\<close>, by dynamic type: a string, a Kind, a
  MetaData, a plain \<^verbatim>\<open>map[string]interface{}\<close>, a value of the interface \<^verbatim>\<open>error\<close>
  (the nil interface has no dynamic type and matches no case of the type switch), or
  anything else.
\<close>

datatype arg =
    ArgString string
  | ArgKind Kind
  | ArgMetaData MetaData
  | ArgMap MetaData
  | ArgError error_val
  | ArgOther

text \<open>
  \<^verbatim>\<open>for k, v := range opt { meta[k] = v }\<close> into a fresh map: every key of the map is
  visited once, with its value.
\<close>

definition copy_map :: "mapobj \<Rightarrow> mapobj" where
  "copy_map opt = fold (\<lambda>(k, v) meta. AList.update k v meta) (AList.clearjunk opt) []"

text \<open>
  One round of the loop over the arguments, on the store and the record under
  construction. The case \<^verbatim>\<open>*Error\<close> copies the struct through the pointer it is given,
  which faults on the nil pointer.
\<close>

fun E_arg :: "store \<times> Error \<Rightarrow> arg \<Rightarrow> panic + store \<times> Error" where
  "E_arg (h, e) (ArgString opt) = Inr (h, MkError (Kind e) (cause e) opt (Meta e))"
| "E_arg (h, e) (ArgKind opt) = Inr (h, MkError opt (cause e) (s e) (Meta e))"
| "E_arg (h, e) (ArgMetaData opt) = Inr (h, MkError (Kind e) (cause e) (s e) opt)"
| "E_arg (h, e) (ArgMap opt) =
     (let meta = copy_map (deref h opt)
      in Inr (h @ [meta], MkError (Kind e) (cause e) (s e) (Some (length h))))"
| "E_arg (h, e) (ArgError NilInterface) = Inr (h, e)"
| "E_arg (h, e) (ArgError NilErrorPtr) = Inl NilDereference"
| "E_arg (h, e) (ArgError (ErrorPtr opt)) =
     Inr (h, MkError (Kind e) (ErrorPtr opt) (s e) (Meta e))"
| "E_arg (h, e) (ArgError (errorString t)) =
     Inr (h, MkError (Kind e) (errorString t) (s e) (Meta e))"
| "E_arg (h, e) ArgOther = Inr (h, e)"

fun E_loop :: "store \<times> Error \<Rightarrow> arg list \<Rightarrow> panic + store \<times> Error" where
  "E_loop st [] = Inr st"
| "E_loop st (a # as) =
     (case E_arg st a of Inl p \<Rightarrow> Inl p | Inr st' \<Rightarrow> E_loop st' as)"

text \<open>
  The part of \<^verbatim>\<open>E\<close> after the loop: nil when no cause was found, and the two fields
  filled from a cause that is an \<^verbatim>\<open>*Error\<close>. The type assertion also succeeds on a nil
  \<^verbatim>\<open>*Error\<close>, whose fields cannot be read.
\<close>

definition E_fill :: "Error \<Rightarrow> panic + error_val" where
  "E_fill e =
     (case cause e of
        NilInterface \<Rightarrow> Inr NilInterface
      | errorString t \<Rightarrow> Inr (ErrorPtr e)
      | NilErrorPtr \<Rightarrow>
          (if Kind e = Unknown \<or> Meta e = None then Inl NilDereference
           else Inr (ErrorPtr e))
      | ErrorPtr err \<Rightarrow>
          Inr (ErrorPtr (MkError (if Kind e = Unknown then Kind err else Kind e)
                 (cause e) (s e) (if Meta e = None then Meta err else Meta e))))"

definition E :: "store \<Rightarrow> arg list \<Rightarrow> panic + store \<times> error_val" where
  "E h args =
     (case E_loop (h, MkError 0 NilInterface [] None) args of
        Inl p \<Rightarrow> Inl p
      | Inr (h', e) \<Rightarrow>
          (case E_fill e of Inl p \<Rightarrow> Inl p | Inr r \<Rightarrow> Inr (h', r)))"

text \<open>\<^verbatim>\<open>func New(text string) error\<close>.\<close>

definition New :: "string \<Rightarrow> error_val" where
  "New text = errorString text"

section \<open>Classification\<close>

text \<open>
  \<^verbatim>\<open>func Cause(err error) error\<close>. The only type of the package with a method
  \<^verbatim>\<open>Cause() error\<close> is \<^verbatim>\<open>*Error\<close>; the method reads \<^verbatim>\<open>e.cause\<close>, which faults
  through the nil pointer. The loop follows the causes of a record, which are finitely many.
\<close>

fun Cause :: "error_val \<Rightarrow> panic + error_val" where
  "Cause NilInterface = Inr NilInterface"
| "Cause (errorString t) = Inr (errorString t)"
| "Cause NilErrorPtr = Inl NilDereference"
| "Cause (ErrorPtr (MkError k c str m)) = Cause c"

text \<open>\<^verbatim>\<open>func IsKind(err error, kind Kind) bool\<close>.\<close>

fun IsKind :: "error_val \<Rightarrow> Kind \<Rightarrow> panic + bool" where
  "IsKind NilInterface kind = Inr False"
| "IsKind (errorString t) kind = Inr False"
| "IsKind NilErrorPtr kind = Inl NilDereference"
| "IsKind (ErrorPtr e) kind = Inr (Kind e = kind)"

section \<open>Serialization\<close>

text \<open>
  \<^verbatim>\<open>MarshalJSON\<close> hands an anonymous struct to \<^verbatim>\<open>json.Marshal\<close> of the Go library.
  The encoder is modelled on JSON values: a struct is an object with its fields in the
  order of declaration, a field tagged \<^verbatim>\<open>omitempty\<close> is left out when it is a map of
  length 0 (the nil map included), a map is an object with its keys sorted, and a
  \<^verbatim>\<open>uint8\<close> is a number.
\<close>

datatype json = JNull | JBool bool | JNumber int | JString string
  | JObject "(string \<times> json) list"

fun json_of_mvalue :: "mvalue \<Rightarrow> json" where
  "json_of_mvalue MNil = JNull"
| "json_of_mvalue (MBool b) = JBool b"
| "json_of_mvalue (MInt i) = JNumber i"
| "json_of_mvalue (MString t) = JString t"

definition json_of_map :: "mapobj \<Rightarrow> json" where
  "json_of_map m =
     JObject (map (\<lambda>(k, v). (k, json_of_mvalue v)) (sort_key fst (AList.clearjunk m)))"

definition map_len :: "mapobj \<Rightarrow> nat" where
  "map_len m = length (AList.clearjunk m)"

text \<open>
  \<^verbatim>\<open>func (e *Error) MarshalJSON() ([]byte, error)\<close>, up to the JSON value encoded:
  the struct literal calls \<^verbatim>\<open>e.Msg()\<close>, and the fields are Detail, Type, Error, Code.
\<close>

definition Error_MarshalJSON :: "store \<Rightarrow> Error \<Rightarrow> panic + json" where
  "Error_MarshalJSON h e =
     (case Error_Msg e of
        Inl p \<Rightarrow> Inl p
      | Inr msg \<Rightarrow>
          (let Detail = deref h (Meta e)
           in Inr (JObject
                ((if map_len Detail = 0 then [] else [(''detail'', json_of_map Detail)]) @
                 [(''type'', JString (Kind_String (Kind e))),
                  (''error'', JString msg),
                  (''code'', JNumber (uint (Kind e)))]))))"

text \<open>
  The text of a JSON value as the encoder writes it, without white space. A string is
  written between double quotes as it is when it consists of printable ASCII characters
  other than the double quote, the backslash and the three characters \<^verbatim>\<open><\<close>, \<^verbatim>\<open>>\<close>
  and \<^verbatim>\<open>&\<close>, which the encoder escapes; the escape sequences of the other strings are
  not modelled, and the result for a value with such a string is \<open>None\<close>.
\<close>

definition plain_char :: "char \<Rightarrow> bool" where
  "plain_char c \<longleftrightarrow>
     (32::nat) \<le> of_char c \<and> (of_char c :: nat) < 127 \<and>
     c \<noteq> CHR 0x22 \<and> c \<noteq> CHR 0x5C \<and> c \<noteq> CHR ''<'' \<and> c \<noteq> CHR ''>'' \<and> c \<noteq> CHR ''&''"

definition json_string :: "string \<Rightarrow> string option" where
  "json_string t = (if list_all plain_char t then Some ([CHR 0x22] @ t @ [CHR 0x22]) else None)"

definition digit_char :: "nat \<Rightarrow> char" where
  "digit_char d = char_of (48 + d)"

fun dec_nat :: "nat \<Rightarrow> string" where
  "dec_nat n = (if n < 10 then [digit_char n] else dec_nat (n div 10) @ [digit_char (n mod 10)])"

declare dec_nat.simps [simp del]

definition dec_int :: "int \<Rightarrow> string" where
  "dec_int i = (if i < 0 then ''-'' @ dec_nat (nat (- i)) else dec_nat (nat i))"

fun json_text :: "json \<Rightarrow> string option"
  and json_members :: "(string \<times> json) list \<Rightarrow> string option" where
  "json_text JNull = Some ''null''"
| "json_text (JBool b) = Some (if b then ''true'' else ''false'')"
| "json_text (JNumber i) = Some (dec_int i)"
| "json_text (JString t) = json_string t"
| "json_text (JObject ms) =
     (case json_members ms of None \<Rightarrow> None | Some b \<Rightarrow> Some (''{'' @ b @ ''}''))"
| "json_members [] = Some []"
| "json_members ((k, v) # ms) =
     (case json_string k of None \<Rightarrow> None | Some a \<Rightarrow>
      (case json_text v of None \<Rightarrow> None | Some b \<Rightarrow>
       (case json_members ms of None \<Rightarrow> None | Some c \<Rightarrow>
          Some (a @ '':'' @ b @ (if ms = [] then [] else '','' @ c)))))"

section \<open>Notions of the specification\<close>

text \<open>
  The short message as the specification words it: the chained message cut at, and
  without, the first occurrence of the two characters colon and space; the whole chained
  message when they do not occur.
\<close>

definition Msg_spec :: "Error \<Rightarrow> panic + string" where
  "Msg_spec e =
     (case Error_Error e of
        Inl p \<Rightarrow> Inl p
      | Inr str \<Rightarrow>
          (let pos = strings_Index str '': ''
           in Inr (if pos = - 1 then str else take (nat pos) str)))"

text \<open>
  A value exposes the cause capability when its dynamic type has the method
  \<^verbatim>\<open>Cause() error\<close>, which in this package is the type \<^verbatim>\<open>*Error\<close>. The chain of a
  value lists the value, its cause, the cause of that, and so on.
\<close>

fun exposes_cause :: "error_val \<Rightarrow> bool" where
  "exposes_cause NilInterface = False"
| "exposes_cause (errorString t) = False"
| "exposes_cause NilErrorPtr = True"
| "exposes_cause (ErrorPtr e) = True"

fun chain :: "error_val \<Rightarrow> error_val list" where
  "chain (ErrorPtr (MkError k c str m)) = ErrorPtr (MkError k c str m) # chain c"
| "chain v = [v]"

text \<open>
  What an argument supplies, by its shape. The type switch of \<^verbatim>\<open>E\<close> takes an interface
  value as an error by its dynamic type, so that a nil \<^verbatim>\<open>*Error\<close> is an error argument
  and the nil interface, which has no dynamic type, is not. A MetaData is supplied either
  as a value of type \<^verbatim>\<open>MetaData\<close> or as a plain \<^verbatim>\<open>map[string]interface{}\<close>.
\<close>

datatype meta_arg = TypedMeta MetaData | PlainMap MetaData

fun string_of_arg :: "arg \<Rightarrow> string option" where
  "string_of_arg (ArgString t) = Some t"
| "string_of_arg a = None"

fun Kind_of_arg :: "arg \<Rightarrow> Kind option" where
  "Kind_of_arg (ArgKind k) = Some k"
| "Kind_of_arg a = None"

fun meta_of_arg :: "arg \<Rightarrow> meta_arg option" where
  "meta_of_arg (ArgMetaData m) = Some (TypedMeta m)"
| "meta_of_arg (ArgMap m) = Some (PlainMap m)"
| "meta_of_arg a = None"

fun error_of_arg :: "arg \<Rightarrow> error_val option" where
  "error_of_arg (ArgError v) = (if v = NilInterface then None else Some v)"
| "error_of_arg a = None"

text \<open>The last occurrence of each shape in an argument list, if there is one.\<close>

definition last_opt :: "'a list \<Rightarrow> 'a option" where
  "last_opt xs = (if xs = [] then None else Some (last xs))"

definition last_string :: "arg list \<Rightarrow> string option" where
  "last_string args = last_opt (List.map_filter string_of_arg args)"

definition last_Kind :: "arg list \<Rightarrow> Kind option" where
  "last_Kind args = last_opt (List.map_filter Kind_of_arg args)"

definition last_meta :: "arg list \<Rightarrow> meta_arg option" where
  "last_meta args = last_opt (List.map_filter meta_of_arg args)"

definition last_error :: "arg list \<Rightarrow> error_val option" where
  "last_error args = last_opt (List.map_filter error_of_arg args)"

text \<open>A map reference is valid in a store when it is nil or the address of a map there.\<close>

definition valid_ref :: "store \<Rightarrow> MetaData \<Rightarrow> bool" where
  "valid_ref h m = (case m of None \<Rightarrow> True | Some a \<Rightarrow> a < length h)"

text \<open>
  The chained message in closed form: the messages of the records of a chain, the empty
  ones left out, each followed by colon and space, before the text of the leaf.
\<close>

fun messages :: "error_val \<Rightarrow> string list" where
  "messages (ErrorPtr (MkError k c str m)) = str # messages c"
| "messages v = []"

fun joined :: "string list \<Rightarrow> string \<Rightarrow> string" where
  "joined [] t = t"
| "joined (m # ms) t = (if m = [] then joined ms t else m @ '': '' @ joined ms t)"

text \<open>The errors built in \<^verbatim>\<open>TestError_Error\<close>, as the values \<^verbatim>\<open>E\<close> returns for them.\<close>

definition errIO :: error_val where
  "errIO = ErrorPtr (MkError IO (errorString ''network unreachable'') ''io error'' None)"

definition errUnmarshal :: error_val where
  "errUnmarshal = ErrorPtr (MkError Unmarshal errIO ''can't unmarshal bar'' None)"

definition errDecrypt :: error_val where
  "errDecrypt = ErrorPtr (MkError Decrypt errUnmarshal ''invalid key'' None)"

definition megaError :: error_val where
  "megaError = ErrorPtr (MkError Permission errDecrypt ''no part of group'' None)"

section \<open>Properties\<close>

lemmas Kind_defs = Unknown_def Invalid_def Permission_def IO_def Duplicated_def
  NotExist_def Private_def Internal_def Decrypt_def Unmarshal_def Transient_def
  Unsupported_def NotAcceptable_def

subsection \<open>The short message\<close>

lemma strings_Index_Cons_char:
  "strings_Index (a # str) [c] =
     (if a = c then 0
      else (if strings_Index str [c] < 0 then - 1 else strings_Index str [c] + 1))"
  by (simp add: Let_def)

lemma strings_Index_char:
  "strings_Index str [c] =
     (if c \<in> set str then int (length (takeWhile (\<lambda>x. x \<noteq> c) str)) else - 1)"
proof (induction str)
  case Nil
  show ?case by simp
next
  case (Cons a str)
  show ?case
    unfolding strings_Index_Cons_char Cons.IH by auto
qed

text \<open>What \<^verbatim>\<open>Msg\<close> computes: the chained message up to its first colon.\<close>

lemma Error_Msg_takeWhile:
  assumes "Error_Error e = Inr str"
  shows "Error_Msg e = Inr (takeWhile (\<lambda>x. x \<noteq> CHR '':'') str)"
proof (cases "CHR '':'' \<in> set str")
  case True
  have "take (length (takeWhile (\<lambda>x. x \<noteq> CHR '':'') str)) str =
        takeWhile (\<lambda>x. x \<noteq> CHR '':'') str"
    by (rule takeWhile_eq_take [symmetric])
  with assms True show ?thesis
    by (simp add: Error_Msg_def strings_Index_char Let_def)
next
  case False
  then have tw: "takeWhile (\<lambda>x. x \<noteq> CHR '':'') str = str"
    by (auto simp: takeWhile_eq_all_conv)
  from assms False show ?thesis
    by (simp add: Error_Msg_def strings_Index_char Let_def tw)
qed

text \<open>
  Claim C1. The short message is the chained message cut at the first colon followed by a
  space, so that a message of the record with a colon not followed by a space is kept
  whole. The record that \<^verbatim>\<open>E\<close> builds with the message \<^verbatim>\<open>a:b\<close> over the leaf
  \<^verbatim>\<open>x\<close> has the chained message \<^verbatim>\<open>a:b: x\<close>; the specified short message is
  \<^verbatim>\<open>a:b\<close>, and \<^verbatim>\<open>Msg\<close> returns \<^verbatim>\<open>a\<close>.
\<close>

theorem Msg_cuts_at_colon_without_space:
  "E [] [ArgError (New ''x''), ArgString ''a:b''] =
     Inr ([], ErrorPtr (MkError 0 (errorString ''x'') ''a:b'' None)) \<and>
   Error_Error (MkError 0 (errorString ''x'') ''a:b'' None) = Inr ''a:b: x'' \<and>
   Error_Msg (MkError 0 (errorString ''x'') ''a:b'' None) = Inr ''a'' \<and>
   Msg_spec (MkError 0 (errorString ''x'') ''a:b'' None) = Inr ''a:b''"
  by (simp add: E_def E_fill_def New_def Error_Msg_def Msg_spec_def)

subsection \<open>The chained message\<close>

lemma chain_not_empty [simp]: "chain v \<noteq> []"
  by (induction v rule: chain.induct) auto

lemma Error_Error_step:
  "err_Error (cause e) = Inr t \<Longrightarrow>
   Error_Error e = Inr (if s e = [] then t else s e @ '': '' @ t)"
  by (cases e) simp

lemma err_Error_joined:
  "last (chain v) = errorString t \<Longrightarrow> err_Error v = Inr (joined (messages v) t)"
  by (induction v rule: chain.induct) auto

lemma E_test_chain:
  "E [] [ArgError (New ''network unreachable''), ArgString ''io error'', ArgKind IO] =
     Inr ([], errIO)"
  "E [] [ArgError errIO, ArgString ''can't unmarshal bar'', ArgKind Unmarshal] =
     Inr ([], errUnmarshal)"
  "E [] [ArgError errUnmarshal, ArgString ''invalid key'', ArgKind Decrypt] =
     Inr ([], errDecrypt)"
  "E [] [ArgError errDecrypt, ArgString ''no part of group'', ArgKind Permission] =
     Inr ([], megaError)"
  by (simp_all add: E_def E_fill_def New_def errIO_def errUnmarshal_def errDecrypt_def
      megaError_def Kind_defs)

lemma megaError_message:
  "err_Error megaError =
     Inr ''no part of group: invalid key: can't unmarshal bar: io error: network unreachable''"
  by (simp add: errIO_def errUnmarshal_def errDecrypt_def megaError_def)

text \<open>
  Claim C2. The chained message of a record is its message, colon and space, and the
  chained message of its cause, without the colon and space when its message is empty; a
  leaf renders as its text; a chain that ends in a leaf renders as its non-empty messages
  joined before the text of the leaf. The four errors built over the leaf
  \<^verbatim>\<open>network unreachable\<close> are the ones \<^verbatim>\<open>E\<close> returns, and the outermost renders as the
  five parts joined.
\<close>

theorem Error_renders_chain:
  "(err_Error (cause e) = Inr t \<longrightarrow>
      Error_Error e = Inr (if s e = [] then t else s e @ '': '' @ t)) \<and>
   err_Error (errorString t) = Inr t \<and>
   (last (chain v) = errorString t \<longrightarrow> err_Error v = Inr (joined (messages v) t)) \<and>
   E [] [ArgError (New ''network unreachable''), ArgString ''io error'', ArgKind IO] =
     Inr ([], errIO) \<and>
   E [] [ArgError errIO, ArgString ''can't unmarshal bar'', ArgKind Unmarshal] =
     Inr ([], errUnmarshal) \<and>
   E [] [ArgError errUnmarshal, ArgString ''invalid key'', ArgKind Decrypt] =
     Inr ([], errDecrypt) \<and>
   E [] [ArgError errDecrypt, ArgString ''no part of group'', ArgKind Permission] =
     Inr ([], megaError) \<and>
   err_Error megaError =
     Inr ''no part of group: invalid key: can't unmarshal bar: io error: network unreachable''"
  using Error_Error_step [of e t] err_Error_joined [of v t] E_test_chain megaError_message
  by simp

theorem Error_renders_chain_witness:
  "err_Error (cause (MkError Unknown (errorString ''foo'') ''bar'' None)) = Inr ''foo'' \<and>
   Error_Error (MkError Unknown (errorString ''foo'') ''bar'' None) = Inr ''bar: foo'' \<and>
   last (chain (ErrorPtr (MkError Unknown (errorString ''foo'') [] None))) = errorString ''foo'' \<and>
   err_Error (ErrorPtr (MkError Unknown (errorString ''foo'') [] None)) = Inr ''foo''"
proof -
  let ?e = "MkError Unknown (errorString ''foo'') ''bar'' None"
  let ?v = "ErrorPtr (MkError Unknown (errorString ''foo'') [] None)"
  have h1: "err_Error (cause ?e) = Inr ''foo''" by simp
  have h2: "last (chain ?v) = errorString ''foo''" by simp
  from Error_renders_chain [of ?e "''foo''" ?v] h1 h2
  have "Error_Error ?e = Inr (if s ?e = [] then ''foo'' else s ?e @ '': '' @ ''foo'')"
    and "err_Error ?v = Inr (joined (messages ?v) ''foo'')"
    by blast+
  then have "Error_Error ?e = Inr ''bar: foo''" and "err_Error ?v = Inr ''foo''"
    by simp_all
  with h1 h2 show ?thesis by blast
qed

subsection \<open>Classification\<close>

lemma Cause_no_capability: "\<not> exposes_cause x \<Longrightarrow> Cause x = Inr x"
  by (cases x) auto

lemma Cause_result_no_capability: "Cause x = Inr y \<Longrightarrow> \<not> exposes_cause y"
  by (induction x rule: Cause.induct) auto

lemma Cause_last_chain:
  "\<not> exposes_cause (last (chain x)) \<Longrightarrow> Cause x = Inr (last (chain x))"
  by (induction x rule: chain.induct) auto

lemma chain_butlast_exposes: "v \<in> set (butlast (chain x)) \<Longrightarrow> exposes_cause v"
  by (induction x rule: chain.induct) (auto split: if_splits)

text \<open>
  Claim C8. \<^verbatim>\<open>IsKind(err, k)\<close> returns true exactly when \<open>err\<close> is an Error record of
  kind \<open>k\<close>; on a record it returns whether the kinds are equal, and on a plain error and
  on nil it returns false.
\<close>

theorem IsKind_iff_record_of_kind:
  "(IsKind err k = Inr True \<longleftrightarrow> (\<exists>e. err = ErrorPtr e \<and> Kind e = k)) \<and>
   IsKind (ErrorPtr e) k = Inr (Kind e = k) \<and>
   IsKind (errorString t) k = Inr False \<and>
   IsKind NilInterface k = Inr False"
  by (cases err) auto

theorem IsKind_iff_record_of_kind_witness:
  "IsKind (ErrorPtr (MkError Duplicated (errorString ''hi'') ''hi'' None)) Duplicated = Inr True \<and>
   IsKind (ErrorPtr (MkError Duplicated (errorString ''hi'') ''hi'' None)) Invalid = Inr False \<and>
   IsKind (errorString ''some error'') Duplicated = Inr False \<and>
   IsKind NilInterface Duplicated = Inr False"
  using
    IsKind_iff_record_of_kind [of "ErrorPtr (MkError Duplicated (errorString ''hi'') ''hi'' None)"
      Duplicated "MkError Duplicated (errorString ''hi'') ''hi'' None" "''some error''"]
    IsKind_iff_record_of_kind [of NilInterface Invalid
      "MkError Duplicated (errorString ''hi'') ''hi'' None" "''some error''"]
  by (simp add: Kind_defs)

text \<open>
  Claim C9. \<^verbatim>\<open>Cause(nil)\<close> is nil. A value without the cause capability is returned as
  it is, and unwrapping it a second time changes nothing. On a chain that ends in a value
  without the capability, \<^verbatim>\<open>Cause\<close> returns that last value, and every value before it
  in the chain has the capability.
\<close>

theorem Cause_unwraps_to_deepest:
  "Cause NilInterface = Inr NilInterface \<and>
   (\<not> exposes_cause x \<longrightarrow>
      Cause x = Inr x \<and>
      (case Cause x of Inl p \<Rightarrow> Inl p | Inr y \<Rightarrow> Cause y) = Cause x) \<and>
   (\<not> exposes_cause (last (chain x)) \<longrightarrow>
      Cause x = Inr (last (chain x)) \<and>
      (\<forall>v \<in> set (butlast (chain x)). exposes_cause v))"
  by (auto simp: Cause_no_capability Cause_last_chain chain_butlast_exposes)

theorem Cause_unwraps_to_deepest_witness:
  "\<not> exposes_cause (errorString ''foo'') \<and>
   Cause (errorString ''foo'') = Inr (errorString ''foo'') \<and>
   \<not> exposes_cause (last (chain (ErrorPtr (MkError Unmarshal
        (ErrorPtr (MkError IO (errorString ''network unreachable'') ''io error'' None))
        ''can't unmarshal bar'' None)))) \<and>
   Cause (ErrorPtr (MkError Unmarshal
        (ErrorPtr (MkError IO (errorString ''network unreachable'') ''io error'' None))
        ''can't unmarshal bar'' None)) = Inr (errorString ''network unreachable'')"
  using
    Cause_unwraps_to_deepest [of "errorString ''foo''"]
    Cause_unwraps_to_deepest [of "ErrorPtr (MkError Unmarshal
        (ErrorPtr (MkError IO (errorString ''network unreachable'') ''io error'' None))
        ''can't unmarshal bar'' None)"]
  by simp

subsection \<open>The builder\<close>

text \<open>The last occurrence of a shape, argument by argument.\<close>

lemma last_opt_map_filter_Cons:
  "last_opt (List.map_filter f (a # as)) =
     (case last_opt (List.map_filter f as) of Some t \<Rightarrow> Some t | None \<Rightarrow> f a)"
  by (cases "f a") (auto simp: last_opt_def List.map_filter_simps)

lemmas last_Cons =
  last_opt_map_filter_Cons [of string_of_arg, folded last_string_def]
  last_opt_map_filter_Cons [of Kind_of_arg, folded last_Kind_def]
  last_opt_map_filter_Cons [of error_of_arg, folded last_error_def]
  last_opt_map_filter_Cons [of meta_of_arg, folded last_meta_def]

lemma last_Nil:
  "last_string [] = None" "last_Kind [] = None" "last_error [] = None" "last_meta [] = None"
  by (simp_all add: last_string_def last_Kind_def last_error_def last_meta_def
      last_opt_def List.map_filter_simps)

text \<open>One round of the loop, field by field, and the loop as a whole.\<close>

lemma E_arg_fields:
  assumes "E_arg (h, e) a = Inr (h1, e1)"
  shows "s e1 = (case string_of_arg a of Some t \<Rightarrow> t | None \<Rightarrow> s e)"
    and "Kind e1 = (case Kind_of_arg a of Some k \<Rightarrow> k | None \<Rightarrow> Kind e)"
    and "cause e1 = (case error_of_arg a of Some v \<Rightarrow> v | None \<Rightarrow> cause e)"
    and "error_of_arg a \<noteq> Some NilErrorPtr"
  using assms
  by (cases a; cases "case a of ArgError v \<Rightarrow> v | _ \<Rightarrow> NilInterface"; auto simp: Let_def)+

lemma E_arg_meta:
  assumes "E_arg (h, e) a = Inr (h1, e1)"
  shows "case meta_of_arg a of
           None \<Rightarrow> h1 = h \<and> Meta e1 = Meta e
         | Some (TypedMeta m) \<Rightarrow> h1 = h \<and> Meta e1 = m
         | Some (PlainMap m) \<Rightarrow> h1 = h @ [copy_map (deref h m)] \<and> Meta e1 = Some (length h)"
  using assms
  by (cases a; cases "case a of ArgError v \<Rightarrow> v | _ \<Rightarrow> NilInterface"; auto simp: Let_def)

lemma E_arg_returns:
  "a \<noteq> ArgError NilErrorPtr \<Longrightarrow> \<exists>h1 e1. E_arg (h, e) a = Inr (h1, e1)"
  by (cases a; cases "case a of ArgError v \<Rightarrow> v | _ \<Rightarrow> NilInterface"; auto simp: Let_def)

lemma E_loop_Cons_Inr:
  assumes "E_loop (h, e) (a # as) = Inr (h', e')"
  obtains h1 e1 where "E_arg (h, e) a = Inr (h1, e1)" and "E_loop (h1, e1) as = Inr (h', e')"
  using assms by (auto split: sum.splits)

lemma E_loop_fields:
  assumes "E_loop (h, e) args = Inr (h', e')"
  shows "s e' = (case last_string args of Some t \<Rightarrow> t | None \<Rightarrow> s e)"
    and "Kind e' = (case last_Kind args of Some k \<Rightarrow> k | None \<Rightarrow> Kind e)"
    and "cause e' = (case last_error args of Some v \<Rightarrow> v | None \<Rightarrow> cause e)"
    and "last_error args \<noteq> Some NilErrorPtr"
  using assms
proof (induction args arbitrary: h e)
  case Nil
  {
    case 1 then show ?case by (simp add: last_Nil)
  next
    case 2 then show ?case by (simp add: last_Nil)
  next
    case 3 then show ?case by (simp add: last_Nil)
  next
    case 4 then show ?case by (simp add: last_Nil)
  }
next
  case (Cons a as)
  {
    case 1
    then obtain h1 e1 where st: "E_arg (h, e) a = Inr (h1, e1)"
      and lp: "E_loop (h1, e1) as = Inr (h', e')"
      by (rule E_loop_Cons_Inr)
    from Cons.IH(1) [OF lp] E_arg_fields(1) [OF st] show ?case
      by (simp add: last_Cons split: option.splits)
  next
    case 2
    then obtain h1 e1 where st: "E_arg (h, e) a = Inr (h1, e1)"
      and lp: "E_loop (h1, e1) as = Inr (h', e')"
      by (rule E_loop_Cons_Inr)
    from Cons.IH(2) [OF lp] E_arg_fields(2) [OF st] show ?case
      by (simp add: last_Cons split: option.splits)
  next
    case 3
    then obtain h1 e1 where st: "E_arg (h, e) a = Inr (h1, e1)"
      and lp: "E_loop (h1, e1) as = Inr (h', e')"
      by (rule E_loop_Cons_Inr)
    from Cons.IH(3) [OF lp] E_arg_fields(3) [OF st] show ?case
      by (simp add: last_Cons split: option.splits)
  next
    case 4
    then obtain h1 e1 where st: "E_arg (h, e) a = Inr (h1, e1)"
      and lp: "E_loop (h1, e1) as = Inr (h', e')"
      by (rule E_loop_Cons_Inr)
    from Cons.IH(4) [OF lp] E_arg_fields(4) [OF st] show ?case
      by (auto simp: last_Cons split: option.splits)
  }
qed

lemma E_loop_store:
  "E_loop (h, e) args = Inr (h', e') \<Longrightarrow> \<exists>new. h' = h @ new"
proof (induction args arbitrary: h e)
  case Nil
  then show ?case by simp
next
  case (Cons a as)
  from Cons.prems obtain h1 e1 where st: "E_arg (h, e) a = Inr (h1, e1)"
    and lp: "E_loop (h1, e1) as = Inr (h', e')"
    by (rule E_loop_Cons_Inr)
  from E_arg_meta [OF st] have "\<exists>n. h1 = h @ n"
    by (auto split: option.splits meta_arg.splits)
  with Cons.IH [OF lp] show ?case by auto
qed

lemma deref_append: "valid_ref h m \<Longrightarrow> deref (h @ new) m = deref h m"
  by (auto simp: valid_ref_def deref_def nth_append split: option.splits)

lemma valid_ref_append: "valid_ref h m \<Longrightarrow> valid_ref (h @ new) m"
  by (auto simp: valid_ref_def split: option.splits)

lemma E_loop_meta:
  "E_loop (h, e) args = Inr (h', e') \<Longrightarrow>
   (case last_meta args of
      None \<Rightarrow> h' = h \<and> Meta e' = Meta e
    | Some (TypedMeta m) \<Rightarrow> Meta e' = m
    | Some (PlainMap m) \<Rightarrow>
        Meta e' = Some (length h' - 1) \<and> length h < length h' \<and>
        (valid_ref h m \<longrightarrow> deref h' (Meta e') = copy_map (deref h m)))"
proof (induction args arbitrary: h e)
  case Nil
  then show ?case by (simp add: last_Nil)
next
  case (Cons a as)
  from Cons.prems obtain h1 e1 where st: "E_arg (h, e) a = Inr (h1, e1)"
    and lp: "E_loop (h1, e1) as = Inr (h', e')"
    by (rule E_loop_Cons_Inr)
  from E_arg_meta [OF st] obtain n where h1: "h1 = h @ n"
    by (auto split: option.splits meta_arg.splits)
  note IH = Cons.IH [OF lp]
  show ?case
  proof (cases "last_meta as")
    case None
    with IH have eq: "h' = h1" "Meta e' = Meta e1" by simp_all
    from E_arg_meta [OF st] show ?thesis
      by (auto simp: last_Cons None eq deref_def split: option.splits meta_arg.splits)
  next
    case (Some ma)
    with IH h1 show ?thesis
      by (cases ma) (auto simp: last_Cons deref_append valid_ref_append)
  qed
qed

lemma E_loop_returns:
  "ArgError NilErrorPtr \<notin> set args \<Longrightarrow> \<exists>h' e'. E_loop (h, e) args = Inr (h', e')"
proof (induction args arbitrary: h e)
  case Nil
  then show ?case by simp
next
  case (Cons a as)
  then have "a \<noteq> ArgError NilErrorPtr" by auto
  from E_arg_returns [OF this] obtain h1 e1 where "E_arg (h, e) a = Inr (h1, e1)" by blast
  with Cons show ?case by auto
qed

text \<open>The whole of \<^verbatim>\<open>E\<close>: when it returns a record, and what the record holds.\<close>

lemma E_Inr_iff:
  "E h args = Inr (h', v) \<longleftrightarrow>
   (\<exists>e. E_loop (h, MkError 0 NilInterface [] None) args = Inr (h', e) \<and> E_fill e = Inr v)"
  by (auto simp: E_def split: sum.splits)

lemma E_fill_record:
  assumes "E_fill e = Inr (ErrorPtr r)"
  shows "cause r = cause e" and "cause e \<noteq> NilInterface" and "s r = s e"
    and "Kind r = (if Kind e = Unknown then (case cause e of ErrorPtr w \<Rightarrow> Kind w | _ \<Rightarrow> Unknown)
                   else Kind e)"
    and "Meta r = (if Meta e = None then (case cause e of ErrorPtr w \<Rightarrow> Meta w | _ \<Rightarrow> None)
                   else Meta e)"
  using assms by (auto simp: E_fill_def split: error_val.splits if_splits)

lemma E_fill_returns_record:
  "cause e \<noteq> NilInterface \<Longrightarrow> cause e \<noteq> NilErrorPtr \<Longrightarrow> \<exists>r. E_fill e = Inr (ErrorPtr r)"
  by (auto simp: E_fill_def split: error_val.splits)

lemma no_error_args:
  "(\<forall>a \<in> set args. error_of_arg a = None) \<Longrightarrow>
   last_error args = None \<and> ArgError NilErrorPtr \<notin> set args"
  by (induction args) (auto simp: last_Nil last_Cons)

lemma error_of_arg_not_nil: "error_of_arg a \<noteq> Some NilInterface"
  by (cases a) auto

lemma last_error_not_nil: "last_error args \<noteq> Some NilInterface"
  by (induction args) (auto simp: last_Nil last_Cons error_of_arg_not_nil split: option.splits)

lemma E_returns_record:
  assumes "ArgError NilErrorPtr \<notin> set args" and "last_error args = Some c"
  shows "\<exists>h' r. E h args = Inr (h', ErrorPtr r)"
proof -
  from E_loop_returns [OF assms(1)] obtain h' e'
    where lp: "E_loop (h, MkError 0 NilInterface [] None) args = Inr (h', e')" by blast
  from E_loop_fields(3,4) [OF lp] assms(2) have "cause e' = c" "c \<noteq> NilErrorPtr" by auto
  moreover from assms(2) have "c \<noteq> NilInterface"
    using last_error_not_nil [of args] by auto
  ultimately obtain r where "E_fill e' = Inr (ErrorPtr r)"
    using E_fill_returns_record by blast
  with lp show ?thesis by (auto simp: E_Inr_iff)
qed

lemma E_record:
  assumes "E h args = Inr (h', ErrorPtr r)"
  shows "last_error args = Some (cause r)"
    and "s r = (case last_string args of Some t \<Rightarrow> t | None \<Rightarrow> [])"
    and "Kind r = (case last_Kind args of
                     None \<Rightarrow> (case cause r of ErrorPtr w \<Rightarrow> Kind w | _ \<Rightarrow> Unknown)
                   | Some k \<Rightarrow> if k = Unknown
                       then (case cause r of ErrorPtr w \<Rightarrow> Kind w | _ \<Rightarrow> Unknown) else k)"
    and "case last_meta args of
           None \<Rightarrow> h' = h \<and> Meta r = (case cause r of ErrorPtr w \<Rightarrow> Meta w | _ \<Rightarrow> None)
         | Some (TypedMeta m) \<Rightarrow>
             Meta r = (if m = None then (case cause r of ErrorPtr w \<Rightarrow> Meta w | _ \<Rightarrow> None)
                       else m)
         | Some (PlainMap m) \<Rightarrow>
             Meta r = Some (length h' - 1) \<and> length h < length h' \<and>
             (valid_ref h m \<longrightarrow> deref h' (Meta r) = copy_map (deref h m))"
proof -
  from assms obtain e where lp: "E_loop (h, MkError 0 NilInterface [] None) args = Inr (h', e)"
    and fl: "E_fill e = Inr (ErrorPtr r)"
    by (auto simp: E_Inr_iff)
  note f = E_loop_fields [OF lp] and m = E_loop_meta [OF lp] and r = E_fill_record [OF fl]
  from f(3) r(1,2) show "last_error args = Some (cause r)"
    by (auto split: option.splits)
  from f(1) r(3) show "s r = (case last_string args of Some t \<Rightarrow> t | None \<Rightarrow> [])"
    by (auto split: option.splits)
  from f(2) r(1,4) show "Kind r = (case last_Kind args of
                     None \<Rightarrow> (case cause r of ErrorPtr w \<Rightarrow> Kind w | _ \<Rightarrow> Unknown)
                   | Some k \<Rightarrow> if k = Unknown
                       then (case cause r of ErrorPtr w \<Rightarrow> Kind w | _ \<Rightarrow> Unknown) else k)"
    by (auto simp: Unknown_def split: option.splits)
  from m r(1,5) show "case last_meta args of
           None \<Rightarrow> h' = h \<and> Meta r = (case cause r of ErrorPtr w \<Rightarrow> Meta w | _ \<Rightarrow> None)
         | Some (TypedMeta m) \<Rightarrow>
             Meta r = (if m = None then (case cause r of ErrorPtr w \<Rightarrow> Meta w | _ \<Rightarrow> None)
                       else m)
         | Some (PlainMap m) \<Rightarrow>
             Meta r = Some (length h' - 1) \<and> length h < length h' \<and>
             (valid_ref h m \<longrightarrow> deref h' (Meta r) = copy_map (deref h m))"
    by (auto split: option.splits meta_arg.splits)
qed

text \<open>
  Claim C3. When no argument is taken as an error (a nil error argument is the nil
  interface, which the type switch does not take), \<^verbatim>\<open>E\<close> returns nil: so do
  \<^verbatim>\<open>E(nil)\<close> and \<^verbatim>\<open>E(msg, kind)\<close>. A record that \<^verbatim>\<open>E\<close> returns never has a nil
  cause.
\<close>

theorem E_nil_when_no_error_argument:
  "((\<forall>a \<in> set args. error_of_arg a = None) \<longrightarrow> (\<exists>h'. E h args = Inr (h', NilInterface))) \<and>
   E h [ArgError NilInterface] = Inr (h, NilInterface) \<and>
   E h [ArgString msg, ArgKind k] = Inr (h, NilInterface) \<and>
   (E h args = Inr (h', ErrorPtr r) \<longrightarrow> cause r \<noteq> NilInterface)"
proof (intro conjI impI)
  assume a: "\<forall>a \<in> set args. error_of_arg a = None"
  from no_error_args [OF a] have ne: "last_error args = None"
    and np: "ArgError NilErrorPtr \<notin> set args" by simp_all
  from E_loop_returns [OF np] obtain h' e'
    where lp: "E_loop (h, MkError 0 NilInterface [] None) args = Inr (h', e')" by blast
  from E_loop_fields(3) [OF lp] ne have "cause e' = NilInterface" by simp
  then have "E_fill e' = Inr NilInterface" by (simp add: E_fill_def)
  with lp show "\<exists>h'. E h args = Inr (h', NilInterface)" by (auto simp: E_Inr_iff)
next
  show "E h [ArgError NilInterface] = Inr (h, NilInterface)"
    by (simp add: E_def E_fill_def)
next
  show "E h [ArgString msg, ArgKind k] = Inr (h, NilInterface)"
    by (simp add: E_def E_fill_def)
next
  assume "E h args = Inr (h', ErrorPtr r)"
  then obtain e where "E_fill e = Inr (ErrorPtr r)" by (auto simp: E_Inr_iff)
  from E_fill_record(1,2) [OF this] show "cause r \<noteq> NilInterface" by simp
qed

theorem E_nil_when_no_error_argument_witness:
  "\<exists>h'. E [] [ArgError NilInterface, ArgString ''network latency'', ArgKind IO] =
           Inr (h', NilInterface)"
proof -
  have h: "\<forall>a \<in> set [ArgError NilInterface, ArgString ''network latency'', ArgKind IO].
             error_of_arg a = None"
    by simp
  from E_nil_when_no_error_argument
    [of "[ArgError NilInterface, ArgString ''network latency'', ArgKind IO]" "[]"]
  have "(\<forall>a \<in> set [ArgError NilInterface, ArgString ''network latency'', ArgKind IO].
             error_of_arg a = None) \<longrightarrow>
        (\<exists>h'. E [] [ArgError NilInterface, ArgString ''network latency'', ArgKind IO] =
           Inr (h', NilInterface))"
    by (rule conjunct1)
  with h show ?thesis by (rule rev_mp)
qed

text \<open>
  Claim C5. When the cause found is an Error record \<open>w\<close>, the record built has the kind
  of \<open>w\<close> if no Kind was supplied or the Kind supplied is Unknown, and the Kind supplied
  otherwise.
\<close>

theorem E_kind_inherited_unless_supplied:
  assumes "ArgError NilErrorPtr \<notin> set args" and "last_error args = Some (ErrorPtr w)"
  shows "\<exists>h' r. E h args = Inr (h', ErrorPtr r) \<and> cause r = ErrorPtr w \<and>
           Kind r = (case last_Kind args of
                       None \<Rightarrow> Kind w
                     | Some k \<Rightarrow> if k = Unknown then Kind w else k)"
proof -
  from E_returns_record [OF assms] obtain h' r where E: "E h args = Inr (h', ErrorPtr r)"
    by blast
  from E_record(1) [OF E] assms(2) have c: "cause r = ErrorPtr w" by simp
  with E_record(3) [OF E] E show ?thesis by (auto split: option.splits)
qed

theorem E_kind_inherited_unless_supplied_witness:
  "ArgError NilErrorPtr \<notin> set [ArgString ''ctx'',
      ArgError (ErrorPtr (MkError IO (errorString ''foo'') [] None))] \<and>
   last_error [ArgString ''ctx'',
      ArgError (ErrorPtr (MkError IO (errorString ''foo'') [] None))] =
     Some (ErrorPtr (MkError IO (errorString ''foo'') [] None)) \<and>
   (\<exists>h' r. E [] [ArgString ''ctx'',
        ArgError (ErrorPtr (MkError IO (errorString ''foo'') [] None))] = Inr (h', ErrorPtr r) \<and>
      Kind r = IO)"
proof -
  let ?w = "MkError IO (errorString ''foo'') [] None"
  let ?args = "[ArgString ''ctx'', ArgError (ErrorPtr ?w)]"
  have h1: "ArgError NilErrorPtr \<notin> set ?args" by simp
  have h2: "last_error ?args = Some (ErrorPtr ?w)"
    by (simp add: last_Cons last_Nil)
  have k: "last_Kind ?args = None"
    by (simp add: last_Cons last_Nil)
  from E_kind_inherited_unless_supplied [OF h1 h2, of "[]"] k h1 h2
  show ?thesis by auto
qed

text \<open>The copy of a plain map has the entries of the map.\<close>

lemma map_of_fold_update:
  "map_of (fold (\<lambda>(k, v) meta. AList.update k v meta) xs acc) = map_of acc ++ map_of (rev xs)"
proof (induction xs arbitrary: acc)
  case Nil
  show ?case by simp
next
  case (Cons x xs)
  obtain k v where x: "x = (k, v)" by (cases x)
  show ?case
    by (simp add: x Cons.IH update_conv' map_add_upd_left fun_eq_iff map_add_def split: option.splits)
qed

lemma map_of_copy_map: "map_of (copy_map m) = map_of m"
proof -
  have d: "distinct (map fst (AList.clearjunk m))" by (rule distinct_clearjunk)
  then have "distinct (map fst (rev (AList.clearjunk m)))" by (simp add: rev_map [symmetric])
  with d have "map_of (rev (AList.clearjunk m)) = map_of (AList.clearjunk m)"
    by (simp add: map_of_inject_set)
  then show ?thesis
    by (simp add: copy_map_def map_of_fold_update map_of_clearjunk)
qed

text \<open>
  Claim C4, as it stands: of several arguments of one shape only the last is retained in
  the record, so that \<^verbatim>\<open>E(e, KindX, KindY)\<close> has the kind \<^verbatim>\<open>KindY\<close>. Over a cause that
  is a record of kind IO, the arguments Permission and then Unknown give a record of kind
  IO: the last Kind is Unknown, and it is not the kind of the record.
\<close>

theorem E_last_Kind_Unknown_gives_way:
  "last_Kind [ArgError (ErrorPtr (MkError IO (errorString ''foo'') ''network latency'' None)),
      ArgKind Permission, ArgKind Unknown] = Some Unknown \<and>
   E [] [ArgError (ErrorPtr (MkError IO (errorString ''foo'') ''network latency'' None)),
      ArgKind Permission, ArgKind Unknown] =
     Inr ([], ErrorPtr (MkError IO
        (ErrorPtr (MkError IO (errorString ''foo'') ''network latency'' None)) [] None)) \<and>
   IO \<noteq> Unknown"
  by (simp add: last_Cons last_Nil E_def E_fill_def Kind_defs)

text \<open>
  Claim C4, amended. When \<^verbatim>\<open>E\<close> returns a record, each shape is resolved to its last
  occurrence, independently of the other shapes: the cause is the last error argument, the
  message is the last string, the kind is the last Kind unless that is Unknown (then the
  kind of a cause that is a record is taken), the metadata is the last MetaData unless
  that is nil (then the metadata of a cause that is a record is taken), and a plain map as
  the last metadata argument is kept as a fresh map with the same entries.
\<close>

theorem E_keeps_last_occurrence_up_to_defaults:
  assumes "ArgError NilErrorPtr \<notin> set args" and "last_error args = Some c"
  shows "\<exists>h' r. E h args = Inr (h', ErrorPtr r) \<and> cause r = c \<and>
     (\<forall>t. last_string args = Some t \<longrightarrow> s r = t) \<and>
     (\<forall>k. last_Kind args = Some k \<longrightarrow>
        Kind r = (if k = Unknown then (case c of ErrorPtr w \<Rightarrow> Kind w | _ \<Rightarrow> Unknown) else k)) \<and>
     (\<forall>m. last_meta args = Some (TypedMeta m) \<longrightarrow>
        Meta r = (if m = None then (case c of ErrorPtr w \<Rightarrow> Meta w | _ \<Rightarrow> None) else m)) \<and>
     (\<forall>m. last_meta args = Some (PlainMap m) \<longrightarrow>
        Meta r = Some (length h' - 1) \<and> length h < length h' \<and>
        (valid_ref h m \<longrightarrow> map_of (deref h' (Meta r)) = map_of (deref h m)))"
proof -
  from E_returns_record [OF assms] obtain h' r where E: "E h args = Inr (h', ErrorPtr r)"
    by blast
  from E_record(1) [OF E] assms(2) have c: "cause r = c" by simp
  from E_record(2) [OF E] have s: "\<forall>t. last_string args = Some t \<longrightarrow> s r = t" by simp
  from E_record(3) [OF E] c have k: "\<forall>k. last_Kind args = Some k \<longrightarrow>
        Kind r = (if k = Unknown then (case c of ErrorPtr w \<Rightarrow> Kind w | _ \<Rightarrow> Unknown) else k)"
    by simp
  from E_record(4) [OF E] c have m1: "\<forall>m. last_meta args = Some (TypedMeta m) \<longrightarrow>
        Meta r = (if m = None then (case c of ErrorPtr w \<Rightarrow> Meta w | _ \<Rightarrow> None) else m)"
    by auto
  from E_record(4) [OF E] have m2: "\<forall>m. last_meta args = Some (PlainMap m) \<longrightarrow>
        Meta r = Some (length h' - 1) \<and> length h < length h' \<and>
        (valid_ref h m \<longrightarrow> map_of (deref h' (Meta r)) = map_of (deref h m))"
    by (auto simp: map_of_copy_map)
  from E c s k m1 m2 show ?thesis by blast
qed

theorem E_keeps_last_occurrence_up_to_defaults_witness:
  "ArgError NilErrorPtr \<notin> set [ArgError (errorString ''foo''), ArgString ''a'', ArgString ''b'',
      ArgKind IO, ArgKind Decrypt] \<and>
   last_error [ArgError (errorString ''foo''), ArgString ''a'', ArgString ''b'',
      ArgKind IO, ArgKind Decrypt] = Some (errorString ''foo'') \<and>
   (\<exists>h' r. E [] [ArgError (errorString ''foo''), ArgString ''a'', ArgString ''b'',
        ArgKind IO, ArgKind Decrypt] = Inr (h', ErrorPtr r) \<and>
      cause r = errorString ''foo'' \<and> s r = ''b'' \<and> Kind r = Decrypt)"
proof -
  let ?args = "[ArgError (errorString ''foo''), ArgString ''a'', ArgString ''b'',
      ArgKind IO, ArgKind Decrypt]"
  have h1: "ArgError NilErrorPtr \<notin> set ?args" by simp
  have h2: "last_error ?args = Some (errorString ''foo'')"
    by (simp add: last_Cons last_Nil)
  have l: "last_string ?args = Some ''b''" "last_Kind ?args = Some Decrypt"
    by (simp_all add: last_Cons last_Nil)
  have d: "Decrypt \<noteq> Unknown" by (simp add: Kind_defs)
  from E_keeps_last_occurrence_up_to_defaults [OF h1 h2, of "[]"] obtain h' r
    where "E [] ?args = Inr (h', ErrorPtr r)" and "cause r = errorString ''foo''"
      and "\<forall>t. last_string ?args = Some t \<longrightarrow> s r = t"
      and "\<forall>k. last_Kind ?args = Some k \<longrightarrow>
        Kind r = (if k = Unknown
          then (case errorString ''foo'' of ErrorPtr w \<Rightarrow> Kind w | _ \<Rightarrow> Unknown) else k)"
    by blast
  with l d have "E [] ?args = Inr (h', ErrorPtr r) \<and> cause r = errorString ''foo'' \<and>
      s r = ''b'' \<and> Kind r = Decrypt"
    by simp
  with h1 h2 show ?thesis by blast
qed




text \<open>Without a nil \<^verbatim>\<open>*Error\<close> among its arguments, \<^verbatim>\<open>E\<close> returns.\<close>

lemma E_returns:
  assumes "ArgError NilErrorPtr \<notin> set args"
  shows "\<exists>h' v. E h args = Inr (h', v)"
proof (cases "last_error args")
  case None
  from E_loop_returns [OF assms] obtain h' e'
    where lp: "E_loop (h, MkError 0 NilInterface [] None) args = Inr (h', e')" by blast
  from E_loop_fields(3) [OF lp] None have "cause e' = NilInterface" by simp
  then have "E_fill e' = Inr NilInterface" by (simp add: E_fill_def)
  with lp show ?thesis by (auto simp: E_Inr_iff)
next
  case (Some c)
  from E_returns_record [OF assms Some] show ?thesis by blast
qed

text \<open>
  Claim C10. \<^verbatim>\<open>E\<close> returns normally on every argument list, also when the error
  argument is a nil pointer of type \<^verbatim>\<open>*Error\<close>. On that argument the copy
  \<^verbatim>\<open>copy := *opt\<close> reads through the nil pointer, and the call faults.
\<close>

theorem E_faults_on_nil_Error_pointer:
  "E h [ArgError NilErrorPtr] = Inl NilDereference"
  by (simp add: E_def)

subsection \<open>The serialized form\<close>

lemma plain_Kind_String: "list_all plain_char (Kind_String k)"
  by (simp add: Kind_String_def plain_char_def)

lemma dec_int_uint: "dec_int (uint (k :: Kind)) = dec_nat (unat k)"
  by (simp add: dec_int_def)

lemma map_len_0_iff: "map_len m = 0 \<longleftrightarrow> m = []"
  by (cases m) (auto simp: map_len_def)

lemma json_of_map_members:
  "json_of_map m =
     JObject (map (\<lambda>k. (k, json_of_mvalue (the (map_of m k))))
       (sorted_list_of_set (dom (map_of m))))"
proof -
  let ?xs = "sort_key fst (AList.clearjunk m)"
  have dk: "distinct (map fst (AList.clearjunk m))" by (rule distinct_clearjunk)
  then have "distinct (AList.clearjunk m)" and "inj_on fst (set (AList.clearjunk m))"
    by (simp_all add: distinct_map)
  then have d: "distinct (map fst ?xs)" by (simp add: distinct_map)
  have srt: "sorted (map fst ?xs)" by (rule sorted_sort_key)
  have "set (map fst ?xs) = dom (map_of m)"
    by (simp add: dom_map_of_conv_image_fst [symmetric] map_of_clearjunk)
  with sorted_list_of_set.idem_if_sorted_distinct [OF srt d]
  have keys: "sorted_list_of_set (dom (map_of m)) = map fst ?xs" by simp
  have "\<And>k v. (k, v) \<in> set ?xs \<Longrightarrow> map_of m k = Some v"
  proof -
    fix k v assume "(k, v) \<in> set ?xs"
    then have "(k, v) \<in> set (AList.clearjunk m)" by simp
    with dk have "map_of (AList.clearjunk m) k = Some v" by simp
    then show "map_of m k = Some v" by (simp add: map_of_clearjunk)
  qed
  then have "map (\<lambda>(k, v). (k, json_of_mvalue v)) ?xs =
      map (\<lambda>k. (k, json_of_mvalue (the (map_of m k)))) (map fst ?xs)"
    by (auto simp: comp_def)
  with keys show ?thesis by (simp add: json_of_map_def)
qed

text \<open>The text of the serialized form, for a short message of plain characters.\<close>

lemma MarshalJSON_text:
  assumes "Error_Msg e = Inr msg" and "list_all plain_char msg"
    and "json_text (json_of_map (deref h (Meta e))) = Some d"
  shows \<open>\<exists>j. Error_MarshalJSON h e = Inr j \<and>
     json_text j = Some (''{'' @
       (if deref h (Meta e) = [] then [] else ''"detail":'' @ d @ '','') @
       ''"type":"'' @ Kind_String (Kind e) @ ''","error":"'' @ msg @
       ''","code":'' @ dec_nat (unat (Kind e)) @ ''}'')\<close>
  using assms plain_Kind_String [of "Kind e"]
  by (simp add: Error_MarshalJSON_def map_len_0_iff json_string_def dec_int_uint plain_char_def)

text \<open>The record and the text of \<^verbatim>\<open>TestError_MarshalJSON\<close>.\<close>

lemma TestError_MarshalJSON_E:
  "E [[(''foo'', MString ''bar'')]]
     [ArgError (New ''foo''), ArgString ''network latency'', ArgKind IO, ArgMetaData (Some 0)] =
   Inr ([[(''foo'', MString ''bar'')]],
        ErrorPtr (MkError IO (errorString ''foo'') ''network latency'' (Some 0)))"
  by (simp add: E_def E_fill_def New_def Kind_defs)

lemma TestError_MarshalJSON_text:
  \<open>\<exists>j. Error_MarshalJSON [[(''foo'', MString ''bar'')]]
          (MkError IO (errorString ''foo'') ''network latency'' (Some 0)) = Inr j \<and>
        json_text j =
          Some ''{"detail":{"foo":"bar"},"type":"I/O error","error":"network latency","code":3}''\<close>
proof -
  let ?e = "MkError IO (errorString ''foo'') ''network latency'' (Some 0)"
  let ?h = "[[(''foo'', MString ''bar'')]]"
  have m: "Error_Msg ?e = Inr ''network latency''"
    by (simp add: Error_Msg_def)
  have p: "list_all plain_char ''network latency''"
    by (simp add: plain_char_def)
  have d: \<open>json_text (json_of_map (deref ?h (Meta ?e))) = Some ''{"foo":"bar"}''\<close>
    by (simp add: json_of_map_def deref_def json_string_def plain_char_def)
  have c: "dec_nat (unat IO) = ''3''"
    by code_simp
  have k: "Kind_String IO = ''I/O error''"
    by (simp add: Kind_String_def Kind_defs)
  from MarshalJSON_text [OF m p d] c k show ?thesis
    by (simp add: deref_def)
qed

text \<open>
  Claim C7. The serialized form of a record is an object with the fields \<^verbatim>\<open>detail\<close>
  (the MetaData, its keys in order; left out when the MetaData is nil or has no entry),
  \<^verbatim>\<open>type\<close> (the label of the Kind), \<^verbatim>\<open>error\<close> (the short message) and \<^verbatim>\<open>code\<close>
  (the number of the Kind), in this order; its text is the fields in this order between
  braces; and the record built from the leaf \<^verbatim>\<open>foo\<close>, the message
  \<^verbatim>\<open>network latency\<close>, the kind IO and the MetaData with \<^verbatim>\<open>foo\<close> under \<^verbatim>\<open>bar\<close>
  has the text of the test.
\<close>

theorem MarshalJSON_serialized_form:
  \<open>(Error_Msg e = Inr msg \<longrightarrow>
      Error_MarshalJSON h e = Inr (JObject
        ((if deref h (Meta e) = [] then []
          else [(''detail'', json_of_map (deref h (Meta e)))]) @
         [(''type'', JString (Kind_String (Kind e))),
          (''error'', JString msg),
          (''code'', JNumber (int (unat (Kind e))))]))) \<and>
   json_of_map m =
     JObject (map (\<lambda>k. (k, json_of_mvalue (the (map_of m k))))
       (sorted_list_of_set (dom (map_of m)))) \<and>
   (Error_Msg e = Inr msg \<and> list_all plain_char msg \<and>
    json_text (json_of_map (deref h (Meta e))) = Some d \<longrightarrow>
      (\<exists>j. Error_MarshalJSON h e = Inr j \<and>
         json_text j = Some (''{'' @
           (if deref h (Meta e) = [] then [] else ''"detail":'' @ d @ '','') @
           ''"type":"'' @ Kind_String (Kind e) @ ''","error":"'' @ msg @
           ''","code":'' @ dec_nat (unat (Kind e)) @ ''}''))) \<and>
   E [[(''foo'', MString ''bar'')]]
     [ArgError (New ''foo''), ArgString ''network latency'', ArgKind IO, ArgMetaData (Some 0)] =
     Inr ([[(''foo'', MString ''bar'')]],
          ErrorPtr (MkError IO (errorString ''foo'') ''network latency'' (Some 0))) \<and>
   (\<exists>j. Error_MarshalJSON [[(''foo'', MString ''bar'')]]
          (MkError IO (errorString ''foo'') ''network latency'' (Some 0)) = Inr j \<and>
        json_text j =
          Some ''{"detail":{"foo":"bar"},"type":"I/O error","error":"network latency","code":3}'')\<close>
proof (intro conjI impI)
  assume "Error_Msg e = Inr msg"
  then show "Error_MarshalJSON h e = Inr (JObject
        ((if deref h (Meta e) = [] then []
          else [(''detail'', json_of_map (deref h (Meta e)))]) @
         [(''type'', JString (Kind_String (Kind e))),
          (''error'', JString msg),
          (''code'', JNumber (int (unat (Kind e))))]))"
    by (simp add: Error_MarshalJSON_def map_len_0_iff)
next
  show "json_of_map m =
     JObject (map (\<lambda>k. (k, json_of_mvalue (the (map_of m k))))
       (sorted_list_of_set (dom (map_of m))))"
    by (rule json_of_map_members)
next
  assume "Error_Msg e = Inr msg \<and> list_all plain_char msg \<and>
    json_text (json_of_map (deref h (Meta e))) = Some d"
  then show \<open>\<exists>j. Error_MarshalJSON h e = Inr j \<and>
         json_text j = Some (''{'' @
           (if deref h (Meta e) = [] then [] else ''"detail":'' @ d @ '','') @
           ''"type":"'' @ Kind_String (Kind e) @ ''","error":"'' @ msg @
           ''","code":'' @ dec_nat (unat (Kind e)) @ ''}'')\<close>
    using MarshalJSON_text [of e msg h d] by blast
next
  show "E [[(''foo'', MString ''bar'')]]
     [ArgError (New ''foo''), ArgString ''network latency'', ArgKind IO, ArgMetaData (Some 0)] =
     Inr ([[(''foo'', MString ''bar'')]],
          ErrorPtr (MkError IO (errorString ''foo'') ''network latency'' (Some 0)))"
    by (rule TestError_MarshalJSON_E)
next
  show \<open>\<exists>j. Error_MarshalJSON [[(''foo'', MString ''bar'')]]
          (MkError IO (errorString ''foo'') ''network latency'' (Some 0)) = Inr j \<and>
        json_text j =
          Some ''{"detail":{"foo":"bar"},"type":"I/O error","error":"network latency","code":3}''\<close>
    by (rule TestError_MarshalJSON_text)
qed

theorem MarshalJSON_serialized_form_witness:
  \<open>Error_Msg (MkError Unknown (errorString ''foo'') [] None) = Inr ''foo'' \<and>
   list_all plain_char ''foo'' \<and>
   json_text (json_of_map (deref [] (Meta (MkError Unknown (errorString ''foo'') [] None)))) =
     Some ''{}'' \<and>
   (\<exists>j. Error_MarshalJSON [] (MkError Unknown (errorString ''foo'') [] None) = Inr j \<and>
      json_text j = Some ''{"type":"Unknown error","error":"foo","code":0}'')\<close>
proof -
  let ?e = "MkError Unknown (errorString ''foo'') [] None"
  have m: "Error_Msg ?e = Inr ''foo''"
    by (simp add: Error_Msg_def)
  have p: "list_all plain_char ''foo''"
    by (simp add: plain_char_def)
  have d: "json_text (json_of_map (deref [] (Meta ?e))) = Some ''{}''"
    by (simp add: json_of_map_def deref_def)
  have c: "dec_nat (unat Unknown) = ''0''"
    by code_simp
  have k: "Kind_String Unknown = ''Unknown error''"
    by (simp add: Kind_String_def)
  from MarshalJSON_serialized_form [of ?e "''foo''" "[]" "[]" "''{}''"] m p d
  have \<open>\<exists>j. Error_MarshalJSON [] ?e = Inr j \<and>
         json_text j = Some (''{'' @
           (if deref [] (Meta ?e) = [] then [] else ''"detail":'' @ ''{}'' @ '','') @
           ''"type":"'' @ Kind_String (Kind ?e) @ ''","error":"'' @ ''foo'' @
           ''","code":'' @ dec_nat (unat (Kind ?e)) @ ''}'')\<close>
    by blast
  with c k have \<open>\<exists>j. Error_MarshalJSON [] ?e = Inr j \<and>
      json_text j = Some ''{"type":"Unknown error","error":"foo","code":0}''\<close>
    by (simp add: deref_def)
  with m p d show ?thesis by blast
qed

end
